theory Spec2Isabelle
  imports Main "HOL-Library.Word"
begin

section \<open>LockFreeQueue.hpp: a sequential model\<close>

text \<open>
  The model runs one operation at a time, to completion: every atomic read-modify-write
  of the source is one step of the state, and the memory orders play no role. Nodes live
  in an explicit heap, a map from addresses to nodes. \<^verbatim>\<open>delete\<close> removes the address
  from the heap and logs it, and reading or writing a node that is no longer in the heap
  is an error value, so a use after free is a result the model computes.

  The source writes \<^verbatim>\<open>compare_exange_strong\<close> (lines 158, 170) and
  \<^verbatim>\<open>std::memory_order_rel\<close> (line 151); they are read as
  \<^verbatim>\<open>compare_exchange_strong\<close> and \<^verbatim>\<open>std::memory_order_release\<close>.
\<close>

subsection \<open>Nodes and the program state\<close>

text \<open>
  \<^verbatim>\<open>struct Node\<close> (lines 27-49). The payload slot is \<open>None\<close> while it is only
  default-initialised (the constructor \<^verbatim>\<open>Node()\<close> never assigns \<^verbatim>\<open>data\<close>), and
  \<open>Some v\<close> once \<open>v\<close> has been assigned to it. A pointer is an address or \<open>None\<close>
  for \<^verbatim>\<open>nullptr\<close>. The counters are \<^verbatim>\<open>unsigned int\<close>, taken as 32 bits wide: words that wrap.
\<close>

type_synonym addr = nat
type_synonym ptr = "addr option"

record 'a Node =
  data :: "'a option"
  "next" :: ptr
  internal_ref_count :: "32 word"
  external_ref_count :: "32 word"

text \<open>\<^verbatim>\<open>Node(const T& value)\<close>, lines 37-42.\<close>

definition Node_value :: "'a \<Rightarrow> 'a Node" where
  "Node_value v =
     \<lparr>data = Some v, next = None, internal_ref_count = 1, external_ref_count = 0\<rparr>"

text \<open>\<^verbatim>\<open>Node()\<close>, lines 44-48.\<close>

definition Node_default :: "'a Node" where
  "Node_default =
     \<lparr>data = None, next = None, internal_ref_count = 0, external_ref_count = 0\<rparr>"

text \<open>
  The state: the queue's two members \<^verbatim>\<open>head_\<close> and \<^verbatim>\<open>tail_\<close> (the fields
  \<open>head\<close> and \<open>tail\<close>: a name cannot end in an underscore here), and the allocator
  (the live nodes, the addresses deleted so far in order, and the next address
  \<^verbatim>\<open>new\<close> hands out; an address is never handed out twice). Allocation failure is
  not modelled.
\<close>

record 'a state =
  head :: ptr
  tail :: ptr
  heap :: "addr \<rightharpoonup> 'a Node"
  freed :: "addr list"
  fresh :: addr

datatype error = NullPointer | UseAfterFree | DoubleFree | InvalidPointer

definition deref :: "ptr \<Rightarrow> 'a state \<Rightarrow> error + 'a Node" where
  "deref p s =
     (case p of
        None \<Rightarrow> Inl NullPointer
      | Some a \<Rightarrow>
          (case heap s a of
             Some nd \<Rightarrow> Inr nd
           | None \<Rightarrow> if a \<in> set (freed s) then Inl UseAfterFree else Inl InvalidPointer))"

text \<open>An atomic read-modify-write of one node: returns the node as it was.\<close>

definition fetch_update ::
  "ptr \<Rightarrow> ('a Node \<Rightarrow> 'a Node) \<Rightarrow> 'a state \<Rightarrow> error + ('a Node \<times> 'a state)" where
  "fetch_update p f s =
     (case p of
        None \<Rightarrow> Inl NullPointer
      | Some a \<Rightarrow>
          (case deref p s of
             Inl e \<Rightarrow> Inl e
           | Inr nd \<Rightarrow> Inr (nd, s\<lparr>heap := (heap s)(a \<mapsto> f nd)\<rparr>)))"

definition fetch_add_external :: "ptr \<Rightarrow> 'a state \<Rightarrow> error + (32 word \<times> 'a state)" where
  "fetch_add_external p s =
     (case fetch_update p (\<lambda>nd. nd\<lparr>external_ref_count := external_ref_count nd + 1\<rparr>) s of
        Inl e \<Rightarrow> Inl e
      | Inr (nd, s') \<Rightarrow> Inr (external_ref_count nd, s'))"

definition fetch_sub_external :: "ptr \<Rightarrow> 'a state \<Rightarrow> error + (32 word \<times> 'a state)" where
  "fetch_sub_external p s =
     (case fetch_update p (\<lambda>nd. nd\<lparr>external_ref_count := external_ref_count nd - 1\<rparr>) s of
        Inl e \<Rightarrow> Inl e
      | Inr (nd, s') \<Rightarrow> Inr (external_ref_count nd, s'))"

definition fetch_add_internal :: "ptr \<Rightarrow> 'a state \<Rightarrow> error + (32 word \<times> 'a state)" where
  "fetch_add_internal p s =
     (case fetch_update p (\<lambda>nd. nd\<lparr>internal_ref_count := internal_ref_count nd + 1\<rparr>) s of
        Inl e \<Rightarrow> Inl e
      | Inr (nd, s') \<Rightarrow> Inr (internal_ref_count nd, s'))"

definition fetch_sub_internal :: "ptr \<Rightarrow> 'a state \<Rightarrow> error + (32 word \<times> 'a state)" where
  "fetch_sub_internal p s =
     (case fetch_update p (\<lambda>nd. nd\<lparr>internal_ref_count := internal_ref_count nd - 1\<rparr>) s of
        Inl e \<Rightarrow> Inl e
      | Inr (nd, s') \<Rightarrow> Inr (internal_ref_count nd, s'))"

definition load_internal :: "ptr \<Rightarrow> 'a state \<Rightarrow> error + 32 word" where
  "load_internal p s = (case deref p s of Inl e \<Rightarrow> Inl e | Inr nd \<Rightarrow> Inr (internal_ref_count nd))"

definition load_external :: "ptr \<Rightarrow> 'a state \<Rightarrow> error + 32 word" where
  "load_external p s = (case deref p s of Inl e \<Rightarrow> Inl e | Inr nd \<Rightarrow> Inr (external_ref_count nd))"

definition load_next :: "ptr \<Rightarrow> 'a state \<Rightarrow> error + ptr" where
  "load_next p s = (case deref p s of Inl e \<Rightarrow> Inl e | Inr nd \<Rightarrow> Inr (next nd))"

text \<open>
  \<^verbatim>\<open>compare_exchange_strong(expected, desired)\<close> returns whether it stored, and the
  new content of \<^verbatim>\<open>expected\<close>, which it overwrites with the current value when the
  comparison fails.
\<close>

definition cas_head :: "ptr \<Rightarrow> ptr \<Rightarrow> 'a state \<Rightarrow> bool \<times> ptr \<times> 'a state" where
  "cas_head expected desired s =
     (if head s = expected then (True, expected, s\<lparr>head := desired\<rparr>)
      else (False, head s, s))"

definition cas_tail :: "ptr \<Rightarrow> ptr \<Rightarrow> 'a state \<Rightarrow> bool \<times> ptr \<times> 'a state" where
  "cas_tail expected desired s =
     (if tail s = expected then (True, expected, s\<lparr>tail := desired\<rparr>)
      else (False, tail s, s))"

definition cas_next :: "ptr \<Rightarrow> ptr \<Rightarrow> ptr \<Rightarrow> 'a state \<Rightarrow> error + (bool \<times> ptr \<times> 'a state)" where
  "cas_next p expected desired s =
     (case p of
        None \<Rightarrow> Inl NullPointer
      | Some a \<Rightarrow>
          (case deref p s of
             Inl e \<Rightarrow> Inl e
           | Inr nd \<Rightarrow>
               if next nd = expected
               then Inr (True, expected, s\<lparr>heap := (heap s)(a \<mapsto> nd\<lparr>next := desired\<rparr>)\<rparr>)
               else Inr (False, next nd, s)))"

text \<open>\<^verbatim>\<open>new Node<T>{}\<close>: a default-constructed node at a fresh address.\<close>

definition new_Node :: "'a state \<Rightarrow> addr \<times> 'a state" where
  "new_Node s =
     (fresh s, s\<lparr>heap := (heap s)(fresh s \<mapsto> Node_default), fresh := Suc (fresh s)\<rparr>)"

text \<open>\<^verbatim>\<open>delete node\<close>; deleting \<^verbatim>\<open>nullptr\<close> does nothing.\<close>

definition delete_node :: "ptr \<Rightarrow> 'a state \<Rightarrow> error + 'a state" where
  "delete_node p s =
     (case p of
        None \<Rightarrow> Inr s
      | Some a \<Rightarrow>
          (case heap s a of
             Some nd \<Rightarrow> Inr (s\<lparr>heap := (heap s)(a := None), freed := freed s @ [a]\<rparr>)
           | None \<Rightarrow> if a \<in> set (freed s) then Inl DoubleFree else Inl InvalidPointer))"

subsection \<open>The reclamation operations\<close>

text \<open>\<^verbatim>\<open>release_node_ref\<close>, lines 87-98.\<close>

definition release_node_ref :: "ptr \<Rightarrow> 'a state \<Rightarrow> error + 'a state" where
  "release_node_ref node s =
     (if node = None then Inr s
      else
        (case fetch_sub_external node s of
           Inl e \<Rightarrow> Inl e
         | Inr (prev_ext_ref, s1) \<Rightarrow>
             if prev_ext_ref = 1
             then
               (case load_internal node s1 of
                  Inl e \<Rightarrow> Inl e
                | Inr i \<Rightarrow> if i = 0 then delete_node node s1 else Inr s1)
             else Inr s1))"

text \<open>\<^verbatim>\<open>release_internal_counter\<close>, lines 101-111.\<close>

definition release_internal_counter :: "ptr \<Rightarrow> 'a state \<Rightarrow> error + 'a state" where
  "release_internal_counter node s =
     (if node = None then Inr s
      else
        (case fetch_sub_internal node s of
           Inl e \<Rightarrow> Inl e
         | Inr (prev, s1) \<Rightarrow>
             if prev = 1
             then
               (case load_external node s1 of
                  Inl e \<Rightarrow> Inl e
                | Inr x \<Rightarrow> if x = 0 then delete_node node s1 else Inr s1)
             else Inr s1))"

text \<open>\<^verbatim>\<open>free_external_counter\<close>, lines 113-125.\<close>

definition free_external_counter :: "ptr \<Rightarrow> 'a state \<Rightarrow> error + 'a state" where
  "free_external_counter node s =
     (if node = None then Inr s
      else
        (case fetch_sub_external node s of
           Inl e \<Rightarrow> Inl e
         | Inr (prev_count, s1) \<Rightarrow>
             if prev_count = 1
             then
               (case fetch_sub_internal node s1 of
                  Inl e \<Rightarrow> Inl e
                | Inr (prev, s2) \<Rightarrow> if prev = 1 then delete_node node s2 else Inr s2)
             else Inr s1))"

text \<open>
  \<^verbatim>\<open>claim_node\<close>, lines 127-134. The entry point is passed as the selector that reads
  it (\<open>head\<close> or \<open>tail\<close>).
\<close>

definition claim_node :: "('a state \<Rightarrow> ptr) \<Rightarrow> 'a state \<Rightarrow> error + (ptr \<times> 'a state)" where
  "claim_node p_node s =
     (let node = p_node s in
      if node \<noteq> None
      then (case fetch_add_external node s of
              Inl e \<Rightarrow> Inl e
            | Inr (prev, s1) \<Rightarrow> Inr (node, s1))
      else Inr (node, s))"

subsection \<open>Construction\<close>

text \<open>The program state before any queue exists.\<close>

definition empty_state :: "'a state" where
  "empty_state = \<lparr>head = None, tail = None, heap = Map.empty, freed = [], fresh = 0\<rparr>"

text \<open>\<^verbatim>\<open>LockFreeQueue()\<close>, lines 70-76.\<close>

definition LockFreeQueue :: "'a state \<Rightarrow> 'a state" where
  "LockFreeQueue s =
     (case new_Node s of
        (dummy, s1) \<Rightarrow>
          s1\<lparr>heap := (heap s1)(dummy \<mapsto> Node_default\<lparr>internal_ref_count := 1\<rparr>),
             head := Some dummy, tail := Some dummy\<rparr>)"

subsection \<open>push\<close>

text \<open>
  \<^verbatim>\<open>push\<close>, lines 136-175. The \<^verbatim>\<open>while (true)\<close> loop takes one unit of fuel per
  iteration; \<open>None\<close> is a loop that has not returned when the fuel is gone. The
  locals \<^verbatim>\<open>last\<close> and \<^verbatim>\<open>next\<close> are \<open>lst\<close> and \<open>nxt\<close>. The
  parameter \<open>v\<close> is the source's \<^verbatim>\<open>value\<close>, which the body never mentions.
\<close>

fun push_loop :: "nat \<Rightarrow> ptr \<Rightarrow> 'a state \<Rightarrow> (error + 'a state) option" where
  "push_loop 0 node s = None"
| "push_loop (Suc n) node s =
     (let lst = tail s in
      case load_next lst s of
        Inl e \<Rightarrow> Some (Inl e)
      | Inr nxt \<Rightarrow>
          if lst = tail s
          then
            (if nxt = None
             then
               (case cas_next lst nxt node s of
                  Inl e \<Rightarrow> Some (Inl e)
                | Inr (ok, nxt', s1) \<Rightarrow>
                    if ok
                    then
                      (case fetch_add_internal node s1 of
                         Inl e \<Rightarrow> Some (Inl e)
                       | Inr (prev, s2) \<Rightarrow>
                           (case cas_tail lst node s2 of
                              (ok', lst', s3) \<Rightarrow>
                                (case release_internal_counter node s3 of
                                   Inl e \<Rightarrow> Some (Inl e)
                                 | Inr s4 \<Rightarrow> Some (Inr s4))))
                    else push_loop n node s1)
             else
               (case cas_tail lst nxt s of
                  (ok, lst', s1) \<Rightarrow> push_loop n node s1))
          else push_loop n node s)"

definition push :: "nat \<Rightarrow> 'a \<Rightarrow> 'a state \<Rightarrow> (error + 'a state) option" where
  "push n v s = (case new_Node s of (node, s1) \<Rightarrow> push_loop n (Some node) s1)"

subsection \<open>pop\<close>

text \<open>
  \<^verbatim>\<open>pop\<close>, lines 177-210. The source's signature is \<^verbatim>\<open>bool pop(T& value)\<close>, and
  its one assignment of a payload is \<^verbatim>\<open>result = next->data\<close> (line 201): the name
  assigned is not the parameter. The model keeps both variables, so that a statement about
  what pop writes covers either reading: \<open>value_arg\<close> is the caller's variable bound to
  \<^verbatim>\<open>value\<close>, \<open>result_var\<close> is the variable that line 201 names.
\<close>

record 'a pop_vars =
  value_arg :: "'a option"
  result_var :: "'a option"

fun pop_loop ::
  "nat \<Rightarrow> 'a pop_vars \<Rightarrow> 'a state \<Rightarrow> (error + (bool \<times> 'a pop_vars \<times> 'a state)) option" where
  "pop_loop 0 vars s = None"
| "pop_loop (Suc n) vars s =
     (case claim_node head s of
        Inl e \<Rightarrow> Some (Inl e)
      | Inr (first, s1) \<Rightarrow>
     (case fetch_add_external first s1 of
        Inl e \<Rightarrow> Some (Inl e)
      | Inr (prev, s2) \<Rightarrow>
     (case load_next first s2 of
        Inl e \<Rightarrow> Some (Inl e)
      | Inr nxt \<Rightarrow>
     (case claim_node tail s2 of
        Inl e \<Rightarrow> Some (Inl e)
      | Inr (lst, s3) \<Rightarrow>
          if first = lst
          then
            (case free_external_counter lst s3 of
               Inl e \<Rightarrow> Some (Inl e)
             | Inr s4 \<Rightarrow>
                 if nxt = None
                 then
                   (case free_external_counter first s4 of
                      Inl e \<Rightarrow> Some (Inl e)
                    | Inr s5 \<Rightarrow> Some (Inr (False, vars, s5)))
                 else
                   (case cas_tail lst nxt s4 of
                      (ok, lst', s5) \<Rightarrow>
                        (case free_external_counter first s5 of
                           Inl e \<Rightarrow> Some (Inl e)
                         | Inr s6 \<Rightarrow> pop_loop n vars s6)))
          else
            (if nxt \<noteq> None
             then
               (case cas_head first nxt s3 of
                  (ok, first', s4) \<Rightarrow>
                    if ok
                    then
                      (case deref nxt s4 of
                         Inl e \<Rightarrow> Some (Inl e)
                       | Inr nd \<Rightarrow>
                           (case free_external_counter lst s4 of
                              Inl e \<Rightarrow> Some (Inl e)
                            | Inr s5 \<Rightarrow>
                                (case free_external_counter first' s5 of
                                   Inl e \<Rightarrow> Some (Inl e)
                                 | Inr s6 \<Rightarrow>
                                     Some (Inr (True, vars\<lparr>result_var := data nd\<rparr>, s6)))))
                    else
                      (case free_external_counter lst s4 of
                         Inl e \<Rightarrow> Some (Inl e)
                       | Inr s5 \<Rightarrow>
                           (case free_external_counter first' s5 of
                              Inl e \<Rightarrow> Some (Inl e)
                            | Inr s6 \<Rightarrow> pop_loop n vars s6)))
             else
               (case free_external_counter lst s3 of
                  Inl e \<Rightarrow> Some (Inl e)
                | Inr s4 \<Rightarrow>
                    (case free_external_counter first s4 of
                       Inl e \<Rightarrow> Some (Inl e)
                     | Inr s5 \<Rightarrow> pop_loop n vars s5)))))))"

definition pop ::
  "nat \<Rightarrow> 'a pop_vars \<Rightarrow> 'a state \<Rightarrow> (error + (bool \<times> 'a pop_vars \<times> 'a state)) option" where
  "pop n vars s = pop_loop n vars s"

subsection \<open>Queue states and call sequences that the theorems are about\<close>

text \<open>
  A queue that holds only its sentinel, at address 0, with external count \<open>x\<close>: the state
  the constructor leaves is \<open>sentinel_state 0\<close>.
\<close>

definition sentinel_state :: "32 word \<Rightarrow> 'a state" where
  "sentinel_state x =
     \<lparr>head = Some 0, tail = Some 0,
      heap = [0 \<mapsto> \<lparr>data = None, next = None, internal_ref_count = 1,
                      external_ref_count = x\<rparr>],
      freed = [], fresh = 1\<rparr>"

text \<open>
  A queue of one element as section 3 of the specification describes it: the sentinel at
  address 0, linked to a node at address 1 that holds \<open>v\<close>; both nodes with internal
  count 1 and no external hold; \<^verbatim>\<open>head_\<close> at the sentinel and \<^verbatim>\<open>tail_\<close> at the last
  node.
\<close>

definition one_element_state :: "'a \<Rightarrow> 'a state" where
  "one_element_state v =
     \<lparr>head = Some 0, tail = Some 1,
      heap = [0 \<mapsto> \<lparr>data = None, next = Some 1, internal_ref_count = 1,
                      external_ref_count = 0\<rparr>,
              1 \<mapsto> \<lparr>data = Some v, next = None, internal_ref_count = 1,
                      external_ref_count = 0\<rparr>],
      freed = [], fresh = 2\<rparr>"

text \<open>
  \<open>k\<close> calls of pop in a row, each of which returns \<^verbatim>\<open>false\<close> within one iteration
  of its loop; \<open>None\<close> if one of them does anything else.
\<close>

fun empty_pops :: "nat \<Rightarrow> 'a pop_vars \<Rightarrow> 'a state \<Rightarrow> 'a state option" where
  "empty_pops 0 vars s = Some s"
| "empty_pops (Suc k) vars s =
     (case pop 1 vars s of
        Some (Inr (found, vars', s')) \<Rightarrow> if found then None else empty_pops k vars' s'
      | _ \<Rightarrow> None)"

section \<open>Properties\<close>

lemmas atomics =
  deref_def fetch_update_def fetch_add_external_def fetch_sub_external_def
  fetch_add_internal_def fetch_sub_internal_def load_internal_def load_external_def
  load_next_def cas_head_def cas_tail_def cas_next_def new_Node_def delete_node_def

lemmas reclaim =
  release_node_ref_def release_internal_counter_def free_external_counter_def claim_node_def
  Let_def

lemma LockFreeQueue_sentinel: "LockFreeQueue empty_state = sentinel_state 0"
  by (simp add: LockFreeQueue_def empty_state_def sentinel_state_def new_Node_def
      Node_default_def)

subsection \<open>The three release operations, one at a time\<close>

text \<open>
  Each release decrements and then deletes the node exactly when both counters are zero
  after its decrements. \<open>x - 1 = 0\<close> is "this decrement brought the counter to zero".
\<close>

lemma release_node_ref_frees_iff:
  assumes "heap s a = Some nd"
  shows "release_node_ref (Some a) s =
     (if external_ref_count nd - 1 = 0 \<and> internal_ref_count nd = 0
      then Inr (s\<lparr>heap := (heap s)(a := None), freed := freed s @ [a]\<rparr>)
      else Inr (s\<lparr>heap := (heap s)(a \<mapsto>
                   nd\<lparr>external_ref_count := external_ref_count nd - 1\<rparr>)\<rparr>))"
  using assms by (simp add: atomics reclaim)

lemma release_internal_counter_frees_iff:
  assumes "heap s a = Some nd"
  shows "release_internal_counter (Some a) s =
     (if internal_ref_count nd - 1 = 0 \<and> external_ref_count nd = 0
      then Inr (s\<lparr>heap := (heap s)(a := None), freed := freed s @ [a]\<rparr>)
      else Inr (s\<lparr>heap := (heap s)(a \<mapsto>
                   nd\<lparr>internal_ref_count := internal_ref_count nd - 1\<rparr>)\<rparr>))"
  using assms by (simp add: atomics reclaim)

text \<open>
  Claim C8. The combined release \<^verbatim>\<open>free_external_counter\<close> decrements the node's
  external count; if that decrement brings the external count to zero it also decrements
  the internal count, and it frees the node if the internal count thereby reaches zero
  too. Otherwise the node stays, with the decrements applied.
\<close>

theorem free_external_counter_combined:
  assumes "heap s a = Some nd"
  shows "free_external_counter (Some a) s =
     (if external_ref_count nd - 1 = 0
      then (if internal_ref_count nd - 1 = 0
            then Inr (s\<lparr>heap := (heap s)(a := None), freed := freed s @ [a]\<rparr>)
            else Inr (s\<lparr>heap := (heap s)(a \<mapsto>
                   nd\<lparr>external_ref_count := 0,
                      internal_ref_count := internal_ref_count nd - 1\<rparr>)\<rparr>))
      else Inr (s\<lparr>heap := (heap s)(a \<mapsto>
                   nd\<lparr>external_ref_count := external_ref_count nd - 1\<rparr>)\<rparr>))"
  using assms by (simp add: atomics reclaim)

text \<open>
  At a sentinel with one external hold and internal count 1, the combined release takes
  both counts to zero and frees the node.
\<close>

theorem free_external_counter_combined_witness:
  "heap (sentinel_state 1 :: nat state) 0 =
     Some \<lparr>data = None, next = None, internal_ref_count = 1, external_ref_count = 1\<rparr>
   \<and> free_external_counter (Some 0) (sentinel_state 1 :: nat state) =
     Inr \<lparr>head = Some 0, tail = Some 0, heap = Map.empty, freed = [0], fresh = 1\<rparr>"
proof -
  have h: "heap (sentinel_state 1 :: nat state) 0 =
     Some \<lparr>data = None, next = None, internal_ref_count = 1, external_ref_count = 1\<rparr>"
    by (simp add: sentinel_state_def)
  have "free_external_counter (Some 0) (sentinel_state 1 :: nat state) =
     Inr ((sentinel_state 1 :: nat state)
            \<lparr>heap := (heap (sentinel_state 1 :: nat state))(0 := None),
             freed := freed (sentinel_state 1 :: nat state) @ [0]\<rparr>)"
    using free_external_counter_combined [OF h] by simp
  then show ?thesis
    using h by (simp add: sentinel_state_def)
qed

subsection \<open>pop and its output\<close>

text \<open>
  Claim C9. Whenever pop returns \<^verbatim>\<open>false\<close>, the caller's variables are as they were
  before the call: neither the parameter \<^verbatim>\<open>value\<close> nor the variable that line 201
  assigns has been written, on any path and after any number of retries.
\<close>

theorem pop_false_leaves_output:
  "pop n vars s = Some (Inr (False, vars', s')) \<Longrightarrow> vars' = vars"
  unfolding pop_def
proof (induction n arbitrary: s)
  case 0
  then show ?case by simp
next
  case (Suc n)
  then show ?case
    by (auto split: sum.splits prod.splits if_splits)
qed

subsection \<open>pop on a queue that holds only its sentinel\<close>

lemma word_two_plus: "2 + (x :: 32 word) = 0 \<longleftrightarrow> x = 0xFFFFFFFE"
proof -
  have "2 + x = 0 \<longleftrightarrow> x = 0 - 2"
    by (simp add: eq_neg_iff_add_eq_0 add.commute)
  also have "(0 - 2 :: 32 word) = 0xFFFFFFFE" by simp
  finally show ?thesis .
qed

lemma word_one_plus: "1 + (x :: 32 word) = 0 \<longleftrightarrow> x = 0xFFFFFFFF"
proof -
  have "1 + x = 0 \<longleftrightarrow> x = 0 - 1"
    by (simp add: eq_neg_iff_add_eq_0 add.commute)
  also have "(0 - 1 :: 32 word) = 0xFFFFFFFF" by simp
  finally show ?thesis .
qed

text \<open>
  One pop on the sentinel-only queue: it returns \<^verbatim>\<open>false\<close> in its first iteration and
  leaves the sentinel's external count one higher than it found it (three increments, two
  decrements), unless a counter wraps on the way.
\<close>

lemma pop_sentinel_step:
  assumes "x \<noteq> 0xFFFFFFFE" "x \<noteq> 0xFFFFFFFF"
  shows "pop (Suc n) vars (sentinel_state x) = Some (Inr (False, vars, sentinel_state (x + 1)))"
proof -
  have "2 + x \<noteq> 0" "x + 2 \<noteq> 0" "1 + x \<noteq> 0" "x + 1 \<noteq> 0"
    using assms word_two_plus [of x] word_one_plus [of x] by (simp_all add: add.commute)
  then show ?thesis
    by (simp add: sentinel_state_def pop_def atomics reclaim add.commute)
qed

lemma pop_sentinel_wrap:
  "pop (Suc n) vars (sentinel_state 0xFFFFFFFE) = Some (Inl UseAfterFree)"
  by (simp add: sentinel_state_def pop_def atomics reclaim)

lemma empty_pops_sentinel:
  "unat x + k \<le> 4294967294 \<Longrightarrow>
     empty_pops k vars (sentinel_state x) = Some (sentinel_state (x + of_nat k))"
proof (induction k arbitrary: x)
  case 0
  then show ?case by simp
next
  case (Suc k)
  have lt: "unat x < 4294967294" using Suc.prems by simp
  have ne1: "x \<noteq> 0xFFFFFFFE" using lt by auto
  have ne2: "x \<noteq> 0xFFFFFFFF" using lt by auto
  have u: "unat (x + 1) = unat x + 1"
    using lt by (simp add: unat_word_ariths)
  have "empty_pops (Suc k) vars (sentinel_state x) = empty_pops k vars (sentinel_state (x + 1))"
    using pop_sentinel_step [OF ne1 ne2, of 0 vars] by simp
  also have "\<dots> = Some (sentinel_state (x + 1 + of_nat k))"
    using Suc.prems u by (intro Suc.IH) simp
  finally show ?case by (simp add: add.assoc)
qed

text \<open>
  At a freshly constructed queue, a pop that returns \<^verbatim>\<open>false\<close> leaves both caller
  variables as they were.
\<close>

theorem pop_false_leaves_output_witness:
  "pop 1 \<lparr>value_arg = Some (5::nat), result_var = Some 6\<rparr> (sentinel_state 0) =
     Some (Inr (False, \<lparr>value_arg = Some 5, result_var = Some 6\<rparr>, sentinel_state (0 + 1)))
   \<and> \<lparr>value_arg = Some (5::nat), result_var = Some 6\<rparr>
       = \<lparr>value_arg = Some 5, result_var = Some 6\<rparr>"
proof -
  have h: "pop 1 \<lparr>value_arg = Some (5::nat), result_var = Some 6\<rparr> (sentinel_state 0) =
     Some (Inr (False, \<lparr>value_arg = Some 5, result_var = Some 6\<rparr>, sentinel_state (0 + 1)))"
    using pop_sentinel_step [of 0 0] by simp
  show ?thesis
    using h pop_false_leaves_output [OF h] by simp
qed

subsection \<open>push on a freshly constructed queue\<close>

text \<open>
  Claim C5. Every call of push begins by allocating a new node that holds the pushed value,
  with internal and external count zero. On the source, the node push allocates is
  default-constructed: both counts are zero, but its payload slot is never assigned, so
  it is not the node that \<^verbatim>\<open>Node(const T& value)\<close> would build for \<open>v\<close>; the loop then
  runs on that node, and \<open>v\<close> appears nowhere in it.
\<close>

theorem push_allocates_default_node:
  "push n v s = push_loop n (Some (fresh s)) (snd (new_Node s))
   \<and> heap (snd (new_Node s)) (fresh s) =
       Some \<lparr>data = None, next = None, internal_ref_count = 0, external_ref_count = 0\<rparr>
   \<and> heap (snd (new_Node s)) (fresh s) \<noteq> Some (Node_value v)"
  by (simp add: push_def new_Node_def Node_default_def Node_value_def)

text \<open>
  Claim C3. A node reachable from head through next links has internal count at least 1
  while it is linked; in particular the node a push has linked has internal count at least
  1 when push returns. On the source, the first push on a new queue returns with its node
  linked behind the sentinel and installed as tail, and deleted: its internal count went
  from 0 to 1 at line 157 and back to 0 in \<^verbatim>\<open>release_internal_counter\<close> at line 159,
  which found the external count at 0 and freed it.
\<close>

theorem push_frees_linked_node:
  "\<exists>s1. push (Suc n) v (LockFreeQueue empty_state) = Some (Inr s1)
     \<and> load_next (head s1) s1 = Inr (Some 1) \<and> tail s1 = Some 1
     \<and> heap s1 1 = None \<and> freed s1 = [1]"
  by (simp add: LockFreeQueue_sentinel sentinel_state_def push_def atomics reclaim
      Node_default_def)

text \<open>
  Claim C1. Values pushed one after the other are popped in the order they were pushed;
  pushing 1, 2, 3 and popping four times gives 1, 2, 3 and then not-found. On the source,
  the scenario stops at its second call: the first push returns, and the second push reads
  \<^verbatim>\<open>last->next\<close> through a \<^verbatim>\<open>tail_\<close> that points at the node the first push
  deleted.
\<close>

theorem scenario_A_use_after_free:
  "\<exists>s1. push (Suc n) (1::int) (LockFreeQueue empty_state) = Some (Inr s1)
     \<and> push (Suc m) 2 s1 = Some (Inl UseAfterFree)"
  by (simp add: LockFreeQueue_sentinel sentinel_state_def push_def atomics reclaim
      Node_default_def)

text \<open>
  Claim C4. A node is freed exactly when both its counts have reached zero, once, and no
  node is accessed after it has been freed. On the source, one push followed by one pop
  accesses a freed node: the push deletes the node it linked, and the pop then claims
  \<^verbatim>\<open>tail_\<close>, which still points at it.
\<close>

theorem push_then_pop_use_after_free:
  "\<exists>s1. push (Suc n) v (LockFreeQueue empty_state) = Some (Inr s1)
     \<and> freed s1 = [1] \<and> tail s1 = Some 1
     \<and> pop (Suc m) vars s1 = Some (Inl UseAfterFree)"
  by (simp add: LockFreeQueue_sentinel sentinel_state_def push_def pop_def atomics reclaim
      Node_default_def)

subsection \<open>The holds pop takes and gives back\<close>

text \<open>
  Claim C2. In every pop attempt exactly one external hold is taken on the head node, and
  every claim pop makes is matched by one release on every path. On the source, at a
  freshly constructed queue: \<^verbatim>\<open>claim_node(head_)\<close> takes the sentinel's external
  count to 1, line 181 takes it to 2, and pop returns \<^verbatim>\<open>false\<close> with the count at 1,
  where it was 0 before the call.
\<close>

theorem pop_claims_head_twice:
  "\<exists>first s1 s2 s'.
     claim_node head (LockFreeQueue empty_state) = Inr (first, s1)
     \<and> load_external first s1 = Inr 1
     \<and> fetch_add_external first s1 = Inr (1, s2)
     \<and> load_external first s2 = Inr 2
     \<and> pop (Suc n) vars (LockFreeQueue empty_state) = Some (Inr (False, vars, s'))
     \<and> load_external (head s') s' = Inr 1"
  by (simp add: LockFreeQueue_sentinel sentinel_state_def pop_def atomics reclaim)

text \<open>
  Claim C7. When pop finds head and tail at the same node and no successor, it releases
  its external holds and reports empty at once, as a normal result and not an error.
  On the source, the pop of a new queue does return \<^verbatim>\<open>false\<close> in its first iteration,
  but the sentinel keeps one of pop's holds (its external count is 1 afterwards); after
  4294967294 such pops the count stands at \<open>0xFFFFFFFE\<close>, and the next pop on the still
  empty queue wraps it to 1, frees the sentinel through the release of \<^verbatim>\<open>last\<close> and
  then touches it again through the release of \<^verbatim>\<open>first\<close>.
\<close>

theorem pop_empty_keeps_hold_then_wraps:
  "pop (Suc n) vars (LockFreeQueue empty_state) = Some (Inr (False, vars, sentinel_state 1))
   \<and> (\<exists>s. empty_pops 4294967294 vars (LockFreeQueue empty_state) = Some s
          \<and> head s = tail s \<and> load_next (head s) s = Inr None
          \<and> pop (Suc n) vars s = Some (Inl UseAfterFree))"
proof -
  have one: "pop (Suc n) vars (sentinel_state 0) = Some (Inr (False, vars, sentinel_state 1))"
    using pop_sentinel_step [of 0 n vars] by simp
  have many: "empty_pops 4294967294 vars (sentinel_state 0) = Some (sentinel_state 0xFFFFFFFE)"
    using empty_pops_sentinel [of 0 4294967294 vars] by simp
  have shape: "head (sentinel_state 0xFFFFFFFE) = tail (sentinel_state 0xFFFFFFFE)"
    "load_next (head (sentinel_state 0xFFFFFFFE)) (sentinel_state 0xFFFFFFFE) = Inr None"
    by (simp_all add: sentinel_state_def atomics)
  show ?thesis
    using one many shape pop_sentinel_wrap [of n vars]
    by (simp add: LockFreeQueue_sentinel)
qed

subsection \<open>A successful pop\<close>

text \<open>
  Claim C6. When the CAS on head succeeds, pop copies the successor's payload into the
  caller's output argument, releases the external hold on \<^verbatim>\<open>last\<close>, releases the
  external hold and the structural ownership on \<^verbatim>\<open>first\<close>, and reports success.
  On the source, at a queue of one element: pop returns \<^verbatim>\<open>true\<close> and the payload
  is in the variable line 201 names, the caller's argument being as it was; the release
  of \<^verbatim>\<open>last\<close> has taken both counts of that node to zero and deleted it, although
  head and tail now point at it; and \<^verbatim>\<open>first\<close>, the old sentinel, is still allocated
  with internal count 1 and external count 1.
\<close>

theorem pop_success_frees_last_keeps_first:
  "\<exists>s'. pop (Suc n) vars (one_element_state v)
        = Some (Inr (True, vars\<lparr>result_var := Some v\<rparr>, s'))
     \<and> value_arg (vars\<lparr>result_var := Some v\<rparr>) = value_arg vars
     \<and> head s' = Some 1 \<and> tail s' = Some 1 \<and> heap s' 1 = None \<and> freed s' = [1]
     \<and> heap s' 0 =
         Some \<lparr>data = None, next = Some 1, internal_ref_count = 1, external_ref_count = 1\<rparr>"
  by (simp add: one_element_state_def pop_def atomics reclaim)

end
